theory Spec2Isabelle
  imports Main "HOL-Library.Sublist" "HOL-Library.Multiset"
    "HOL-Library.Char_ord" "HOL-Library.List_Lexorder" "HOL-Library.Product_Lexorder"
    "HOL-Library.Option_ord"
begin

section \<open>Strings of the scripts\<close>

text \<open>
  The scripts work on Python \<open>str\<close> values. A string is modelled as a \<open>char list\<close>
  whose elements are read as code points 0 to 255 (ASCII and the Latin-1 supplement); the
  character classes below are Python's on that range.
\<close>

definition is_space :: "char \<Rightarrow> bool" where
  \<comment> \<open>\<open>str.isspace\<close> on one character; the same class is the \<open>\s\<close> of \<open>re\<close> and the
      separator of \<open>str.split()\<close> and \<open>str.strip()\<close>.\<close>
  "is_space c = (c \<in> set [CHR 0x09, CHR 0x0A, CHR 0x0B, CHR 0x0C, CHR 0x0D,
                            CHR 0x1C, CHR 0x1D, CHR 0x1E, CHR 0x1F, CHR 0x20,
                            CHR 0x85, CHR 0xA0])"

definition is_ascii_lower :: "char \<Rightarrow> bool" where
  \<comment> \<open>the class \<open>[a-z]\<close>\<close>
  "is_ascii_lower c = (c \<in> set ''abcdefghijklmnopqrstuvwxyz'')"

definition is_ascii_upper :: "char \<Rightarrow> bool" where
  \<comment> \<open>the class \<open>[A-Z]\<close>\<close>
  "is_ascii_upper c = (c \<in> set ''ABCDEFGHIJKLMNOPQRSTUVWXYZ'')"

definition ascii_lower_char :: "char \<Rightarrow> char" where
  "ascii_lower_char c =
     (case map_of (zip ''ABCDEFGHIJKLMNOPQRSTUVWXYZ'' ''abcdefghijklmnopqrstuvwxyz'') c of
        None \<Rightarrow> c | Some d \<Rightarrow> d)"


definition py_lower_char :: "char \<Rightarrow> char" where
  \<comment> \<open>\<open>str.lower()\<close> on one character of the range: the ASCII capitals and the Latin-1
      capitals U+00C0 to U+00DE (without the multiplication sign U+00D7) move up by 32.\<close>
  "py_lower_char c =
     (case map_of (zip
         [CHR 0xC0, CHR 0xC1, CHR 0xC2, CHR 0xC3, CHR 0xC4, CHR 0xC5, CHR 0xC6, CHR 0xC7,
          CHR 0xC8, CHR 0xC9, CHR 0xCA, CHR 0xCB, CHR 0xCC, CHR 0xCD, CHR 0xCE, CHR 0xCF,
          CHR 0xD0, CHR 0xD1, CHR 0xD2, CHR 0xD3, CHR 0xD4, CHR 0xD5, CHR 0xD6,
          CHR 0xD8, CHR 0xD9, CHR 0xDA, CHR 0xDB, CHR 0xDC, CHR 0xDD, CHR 0xDE]
         [CHR 0xE0, CHR 0xE1, CHR 0xE2, CHR 0xE3, CHR 0xE4, CHR 0xE5, CHR 0xE6, CHR 0xE7,
          CHR 0xE8, CHR 0xE9, CHR 0xEA, CHR 0xEB, CHR 0xEC, CHR 0xED, CHR 0xEE, CHR 0xEF,
          CHR 0xF0, CHR 0xF1, CHR 0xF2, CHR 0xF3, CHR 0xF4, CHR 0xF5, CHR 0xF6,
          CHR 0xF8, CHR 0xF9, CHR 0xFA, CHR 0xFB, CHR 0xFC, CHR 0xFD, CHR 0xFE]) c of
        None \<Rightarrow> ascii_lower_char c | Some d \<Rightarrow> d)"

definition py_lower :: "string \<Rightarrow> string" where
  "py_lower s = map py_lower_char s"

fun rfind_aux :: "char \<Rightarrow> string \<Rightarrow> int \<Rightarrow> int \<Rightarrow> int" where
  "rfind_aux c [] i found = found"
| "rfind_aux c (x # xs) i found = rfind_aux c xs (i + 1) (if x = c then i else found)"

definition rfind :: "char \<Rightarrow> string \<Rightarrow> int" where
  \<comment> \<open>\<open>p.rfind(c)\<close>: the index of the last occurrence of \<open>c\<close>, or -1\<close>
  "rfind c p = rfind_aux c p 0 (- 1)"

function has_non_dot :: "string \<Rightarrow> int \<Rightarrow> int \<Rightarrow> bool" where
  \<comment> \<open>the \<open>while filenameIndex < dotIndex\<close> loop of \<open>genericpath._splitext\<close>: True when
      it returns the split, False when it runs out (the name is only leading dots)\<close>
  "has_non_dot p filenameIndex dotIndex =
     (if filenameIndex < dotIndex
      then (if take 1 (drop (nat filenameIndex) p) \<noteq> ''.'' then True
            else has_non_dot p (filenameIndex + 1) dotIndex)
      else False)"
  by pat_completeness auto
termination
  by (relation "measure (\<lambda>(p, f, d). nat (d - f))") auto

definition splitext :: "string \<Rightarrow> string \<times> string" where
  \<comment> \<open>\<open>os.path.splitext\<close> of \<open>posixpath\<close>: separator \<open>/\<close>, no alternative separator\<close>
  "splitext p =
     (let sepIndex = rfind (CHR ''/'') p;
          dotIndex = rfind (CHR ''.'') p
      in if dotIndex > sepIndex \<and> has_non_dot p (sepIndex + 1) dotIndex
         then (take (nat dotIndex) p, drop (nat dotIndex) p)
         else (p, []))"

function str_remove :: "string \<Rightarrow> string \<Rightarrow> string" where
  \<comment> \<open>\<open>name.replace(old, '')\<close>: every occurrence of \<open>old\<close> found by a scan from the
      left is dropped and the scan goes on behind it; an empty \<open>old\<close> changes nothing\<close>
  "str_remove old [] = []"
| "str_remove old (c # cs) =
     (if old \<noteq> [] \<and> prefix old (c # cs)
      then str_remove old (drop (length old) (c # cs))
      else c # str_remove old cs)"
  by pat_completeness auto
termination
  by (relation "measure (\<lambda>(old, s). length s)") auto

fun split_ws :: "string \<Rightarrow> string \<Rightarrow> string list" where
  \<comment> \<open>\<open>str.split()\<close> with the word read so far as first argument\<close>
  "split_ws cur [] = (if cur = [] then [] else [cur])"
| "split_ws cur (c # cs) =
     (if is_space c then (if cur = [] then split_ws [] cs else cur # split_ws [] cs)
      else split_ws (cur @ [c]) cs)"

definition py_split :: "string \<Rightarrow> string list" where
  "py_split s = split_ws [] s"

fun str_join :: "string \<Rightarrow> string list \<Rightarrow> string" where
  \<comment> \<open>\<open>sep.join(words)\<close>\<close>
  "str_join sep [] = []"
| "str_join sep [w] = w"
| "str_join sep (w # v # ws) = w @ sep @ str_join sep (v # ws)"

definition strip :: "string \<Rightarrow> string" where
  \<comment> \<open>\<open>str.strip()\<close>\<close>
  "strip s = rev (dropWhile is_space (rev (dropWhile is_space s)))"

section \<open>The name normalizer: \<open>ROMDownloader.clean_game_name\<close>\<close>

definition paren_tail :: "string \<Rightarrow> bool" where
  \<comment> \<open>the whole of \<open>s\<close> matches \<open>\s*\([^)]*\)\s*\<close>, that is, the pattern
      \<open>\s*\([^)]*\)\s*$\<close> matches when tried at the start of \<open>s\<close>\<close>
  "paren_tail s =
     (case dropWhile is_space s of
        [] \<Rightarrow> False
      | c # r \<Rightarrow> c = CHR ''('' \<and>
          (case dropWhile (\<lambda>x. x \<noteq> CHR '')'') r of
             [] \<Rightarrow> False
           | d # t \<Rightarrow> list_all is_space t))"

fun strip_paren_group :: "string \<Rightarrow> string" where
  \<comment> \<open>\<open>re.sub(r'\s*\([^)]*\)\s*$', '', name)\<close>: the leftmost position where the pattern
      matches; the match runs to the end of the string, so it is the only one\<close>
  "strip_paren_group [] = []"
| "strip_paren_group (c # cs) =
     (if paren_tail (c # cs) then [] else c # strip_paren_group cs)"

definition underscores_to_spaces :: "string \<Rightarrow> string" where
  \<comment> \<open>\<open>name.replace('_', ' ')\<close>\<close>
  "underscores_to_spaces s = map (\<lambda>c. if c = CHR ''_'' then CHR '' '' else c) s"

fun camel_split :: "string \<Rightarrow> string" where
  \<comment> \<open>\<open>re.sub(r'([a-z])([A-Z])', r'\1 \2', name)\<close>: after a match the scan resumes behind
      the capital\<close>
  "camel_split (a # b # r) =
     (if is_ascii_lower a \<and> is_ascii_upper b then a # CHR '' '' # b # camel_split r
      else a # camel_split (b # r))"
| "camel_split s = s"

definition suffixes_list :: "string list" where
  \<comment> \<open>the list \<open>suffixes\<close> of the method\<close>
  "suffixes_list =
     [''-latest'',
      ''by MooglyGuy (PD)'',
      ''_Win64'',
      ''(Nintendo, Wide Screen)'',
      ''(VTech, Time & Fun)'',
      ''(Gakken, LCD Card Game)'',
      ''(Tomytronic)'',
      ''(Nintendo, Panorama Screen)'',
      ''(Nintendo, Table Top)'',
      ''(Mattel Electronics)'',
      ''(VTech, Electronic Tini-Arcade)'',
      ''(VTech, Sporty Time & Fun)'',
      ''(VTech, Explorer Time & Fun)'',
      ''(Bandai, LSI Game Double Play)'']"

fun remove_suffixes :: "string list \<Rightarrow> string \<Rightarrow> string" where
  \<comment> \<open>\<open>for suffix in suffixes: name = name.replace(suffix, '')\<close>\<close>
  "remove_suffixes [] name = name"
| "remove_suffixes (sfx # rest) name = remove_suffixes rest (str_remove sfx name)"

definition before_suffixes :: "string \<Rightarrow> string" where
  \<comment> \<open>the value of \<open>name\<close> when the loop over the suffixes starts\<close>
  "before_suffixes name =
     camel_split (underscores_to_spaces (strip_paren_group (fst (splitext name))))"

definition collapse_spaces :: "string \<Rightarrow> string" where
  \<comment> \<open>\<open>' '.join(name.split())\<close> and the final \<open>strip()\<close>\<close>
  "collapse_spaces name = strip (str_join '' '' (py_split name))"

definition clean_game_name_with :: "string list \<Rightarrow> string \<Rightarrow> string" where
  \<comment> \<open>the method with the list of suffixes as a parameter\<close>
  "clean_game_name_with sfx name = collapse_spaces (remove_suffixes sfx (before_suffixes name))"

definition clean_game_name :: "string \<Rightarrow> string" where
  "clean_game_name name = clean_game_name_with suffixes_list name"

section \<open>The record store read by the downloader\<close>

text \<open>
  A table is the list of its rows in the order in which a scan of the table yields them;
  a column that may hold SQL \<open>NULL\<close> is an \<open>option\<close>. Only the columns that the
  queries of the downloader read are kept in \<open>games\<close>.
\<close>

record game_row =
  g_id :: int
  g_title :: string
  g_platform :: "int option"

record system_row =
  sys_id :: int
  sys_name :: string
  sys_alias :: "string option"

record artwork_row =
  art_id :: int
  art_game_id :: "int option"
  art_type :: "string option"
  art_side :: "string option"
  art_filename :: "string option"
  art_resolution :: "string option"



section \<open>The game resolver: \<open>ROMDownloader.find_game_in_db\<close>\<close>




section \<open>Platform name resolution: \<open>ROMDownloader.get_system_mapping\<close>\<close>

definition variation_hit :: "string list \<Rightarrow> system_row \<Rightarrow> bool" where
  \<comment> \<open>the test of the first loop over \<open>db_systems\<close>; a \<open>NULL\<close> alias is Python's
      \<open>None\<close>, which is in no list of strings\<close>
  "variation_hit variations db_system =
     (py_lower (sys_name db_system) \<in> set (map py_lower variations) \<or>
      (case sys_alias db_system of None \<Rightarrow> False | Some a \<Rightarrow> a \<in> set variations))"

definition direct_hit :: "string \<Rightarrow> system_row \<Rightarrow> bool" where
  \<comment> \<open>the test of the second loop over \<open>db_systems\<close>\<close>
  "direct_hit system_name db_system =
     (py_lower system_name = py_lower (sys_name db_system) \<or>
      Some (py_lower system_name) = sys_alias db_system)"

definition match_variations ::
  "(string \<times> string list) list \<Rightarrow> system_row list \<Rightarrow> string \<Rightarrow> int option" where
  \<comment> \<open>\<open>if system_name in name_variations: for db_system in db_systems: ... break\<close>\<close>
  "match_variations name_variations db_systems system_name =
     (case map_of name_variations system_name of
        None \<Rightarrow> None
      | Some variations \<Rightarrow> map_option sys_id (find (variation_hit variations) db_systems))"

definition match_direct :: "system_row list \<Rightarrow> string \<Rightarrow> int option" where
  "match_direct db_systems system_name =
     map_option sys_id (find (direct_hit system_name) db_systems)"

definition map_system ::
  "(string \<times> string list) list \<Rightarrow> (string \<Rightarrow> system_row list \<Rightarrow> int option) \<Rightarrow>
   system_row list \<Rightarrow> string \<Rightarrow> int option" where
  \<comment> \<open>the body of the loop over \<open>cores_data\<close> for one system; \<open>fuzzy\<close> stands for the
      third step, which asks \<open>difflib.get_close_matches\<close>\<close>
  "map_system name_variations fuzzy db_systems system_name =
     (case match_variations name_variations db_systems system_name of
        Some i \<Rightarrow> Some i
      | None \<Rightarrow>
          (case match_direct db_systems system_name of
             Some i \<Rightarrow> Some i
           | None \<Rightarrow> fuzzy system_name db_systems))"

fun get_system_mapping ::
  "(string \<times> string list) list \<Rightarrow> (string \<Rightarrow> system_row list \<Rightarrow> int option) \<Rightarrow>
   system_row list \<Rightarrow> string list \<Rightarrow> (string \<rightharpoonup> int) \<Rightarrow> (string \<rightharpoonup> int)" where
  \<comment> \<open>the loop over the names of \<open>cores_data\<close>, with the dict \<open>mapping\<close> built so far\<close>
  "get_system_mapping nv fuzzy db_systems [] mapping = mapping"
| "get_system_mapping nv fuzzy db_systems (system_name # rest) mapping =
     get_system_mapping nv fuzzy db_systems rest
       (case map_system nv fuzzy db_systems system_name of
          None \<Rightarrow> mapping
        | Some i \<Rightarrow> mapping(system_name \<mapsto> i))"

definition suffixes_without_win64 :: "string list" where
  \<comment> \<open>the list \<open>suffixes\<close> with its third entry taken out\<close>
  "suffixes_without_win64 =
     [''-latest'',
      ''by MooglyGuy (PD)'',
      ''(Nintendo, Wide Screen)'',
      ''(VTech, Time & Fun)'',
      ''(Gakken, LCD Card Game)'',
      ''(Tomytronic)'',
      ''(Nintendo, Panorama Screen)'',
      ''(Nintendo, Table Top)'',
      ''(Mattel Electronics)'',
      ''(VTech, Electronic Tini-Arcade)'',
      ''(VTech, Sporty Time & Fun)'',
      ''(VTech, Explorer Time & Fun)'',
      ''(Bandai, LSI Game Double Play)'']"

text \<open>
  The reading of the fifth step that removes one occurrence per suffix, which is
  \<open>name.replace(suffix, '', 1)\<close>; it is compared with the loop of the method below.
\<close>

fun str_remove_once :: "string \<Rightarrow> string \<Rightarrow> string" where
  \<comment> \<open>only the first occurrence of \<open>old\<close> is dropped\<close>
  "str_remove_once old [] = []"
| "str_remove_once old (c # cs) =
     (if old \<noteq> [] \<and> prefix old (c # cs) then drop (length old) (c # cs)
      else c # str_remove_once old cs)"

fun remove_suffixes_once :: "string list \<Rightarrow> string \<Rightarrow> string" where
  "remove_suffixes_once [] name = name"
| "remove_suffixes_once (sfx # rest) name = remove_suffixes_once rest (str_remove_once sfx name)"

section \<open>The downloader object\<close>

record core_child =
  child_name :: string
  child_type :: string

record core_system =
  core_name :: string
  core_children :: "core_child list option"

record downloader =
  artwork_only :: bool
  db_systems :: "system_row list"
  db_games :: "game_row list"
  db_artwork :: "artwork_row list"
  cores_data :: "core_system list"
  system_mapping :: "string \<rightharpoonup> int"

text \<open>
  The method \<open>clean_game_name\<close> as it runs: statement by statement on a frame that
  holds the object and the local variable \<open>name\<close>. The argument is any value that the
  \<open>name\<close> of an entry of the JSON asset can be, a string or something else; a library
  call on something else raises. On a string the calls are the functions of the sections
  above.
\<close>

datatype py_value = PyStr string | PyOther

datatype py_exception = TypeError | AttributeError

record frame =
  fr_self :: downloader
  fr_name :: py_value

datatype step = Next frame | Raise py_exception frame

definition os_path_splitext_root :: "py_value \<Rightarrow> py_exception + py_value" where
  \<comment> \<open>\<open>os.path.splitext(name)[0]\<close>; a value that is no path raises \<open>TypeError\<close>\<close>
  "os_path_splitext_root v =
     (case v of PyStr s \<Rightarrow> Inr (PyStr (fst (splitext s))) | PyOther \<Rightarrow> Inl TypeError)"

definition re_sub :: "(string \<Rightarrow> string) \<Rightarrow> py_value \<Rightarrow> py_exception + py_value" where
  \<comment> \<open>\<open>re.sub(pattern, repl, name)\<close>, with the substitution it makes on a string as
      first argument; a value that is no string raises \<open>TypeError\<close>\<close>
  "re_sub subst v = (case v of PyStr s \<Rightarrow> Inr (PyStr (subst s)) | PyOther \<Rightarrow> Inl TypeError)"

definition str_method :: "(string \<Rightarrow> string) \<Rightarrow> py_value \<Rightarrow> py_exception + py_value" where
  \<comment> \<open>a call of a method of \<open>str\<close> on \<open>name\<close>; a value without that method raises
      \<open>AttributeError\<close>\<close>
  "str_method m v = (case v of PyStr s \<Rightarrow> Inr (PyStr (m s)) | PyOther \<Rightarrow> Inl AttributeError)"

definition assign_name :: "(py_value \<Rightarrow> py_exception + py_value) \<Rightarrow> frame \<Rightarrow> step" where
  \<comment> \<open>the statement \<open>name = call(name)\<close>\<close>
  "assign_name call fr =
     (case call (fr_name fr) of Inl e \<Rightarrow> Raise e fr | Inr v \<Rightarrow> Next (fr\<lparr>fr_name := v\<rparr>))"

definition then_do :: "step \<Rightarrow> (frame \<Rightarrow> step) \<Rightarrow> step" where
  \<comment> \<open>the next statement runs when the one before did not raise\<close>
  "then_do st rest = (case st of Next fr \<Rightarrow> rest fr | Raise e fr \<Rightarrow> Raise e fr)"

fun suffix_loop :: "string list \<Rightarrow> frame \<Rightarrow> step" where
  \<comment> \<open>\<open>for suffix in suffixes: name = name.replace(suffix, '')\<close>\<close>
  "suffix_loop [] fr = Next fr"
| "suffix_loop (sfx # rest) fr =
     then_do (assign_name (str_method (str_remove sfx)) fr) (suffix_loop rest)"

definition clean_game_name_body :: "frame \<Rightarrow> step" where
  \<comment> \<open>the statements of the method up to the \<open>return\<close>\<close>
  "clean_game_name_body fr =
     then_do (assign_name os_path_splitext_root fr) (\<lambda>fr.
     then_do (assign_name (re_sub strip_paren_group) fr) (\<lambda>fr.
     then_do (assign_name (str_method underscores_to_spaces) fr) (\<lambda>fr.
     then_do (assign_name (re_sub camel_split) fr) (\<lambda>fr.
     then_do (suffix_loop suffixes_list fr) (\<lambda>fr.
     assign_name (str_method (\<lambda>s. str_join '' '' (py_split s))) fr)))))"

definition clean_game_name_exec ::
  "downloader \<Rightarrow> py_value \<Rightarrow> (py_exception + py_value) \<times> downloader" where
  \<comment> \<open>a call \<open>self.clean_game_name(name)\<close>: the value of \<open>return name.strip()\<close> or the
      exception raised, and the object after the call\<close>
  "clean_game_name_exec self name =
     (case clean_game_name_body \<lparr>fr_self = self, fr_name = name\<rparr> of
        Raise e fr \<Rightarrow> (Inl e, fr_self fr)
      | Next fr \<Rightarrow> (str_method strip (fr_name fr), fr_self fr))"

section \<open>Names without wildcards\<close>


section \<open>The table of name variations\<close>

text \<open>
  The dict \<open>name_variations\<close> of \<open>get_system_mapping\<close>, in the order of the source.
  The first variation of the entry for \<open>Nintendo - Pokemon Mini\<close> holds a character
  beyond code point 255 in the source and is left out here.
\<close>

definition name_variations :: "(string \<times> string list) list" where
  "name_variations =
     [
      (''Arcade'', [''Arcade'', ''arcade'']),
      (''EasyRPG'', [''RPG Maker'', ''rpg-maker'']),
      (''NEC - PC Engine - TurboGrafx 16'', [''TurboGrafx 16'', ''turbografx-16'']),
      (''Nintendo - Nintendo 64'', [''Nintendo 64'', ''nintendo-64'']),
      (''Nintendo - Virtual Boy'', [''Nintendo Virtual Boy'', ''nintendo-virtual-boy'']),
      (''Nintendo - GameBoy'', [''Nintendo Game Boy'', ''nintendo-gameboy'']),
      (''Nintendo - GameBoy Advance'', [''Nintendo Game Boy Advance'', ''nintendo-gameboy-advance'']),
      (''Nintendo - Nintendo Entertainment System'', [''Nintendo Entertainment System (NES)'', ''nes'']),
      (''Nintendo - Super Nintendo Entertainment System'', [''Super Nintendo Entertainment System (SNES)'', ''snes'']),
      (''Nintendo - GameCube - Wii'', [''Nintendo GameCube'', ''gamecube'']),
      (''Nintendo - Nintendo 3DS'', [''Nintendo 3DS'', ''nintendo-3ds'']),
      (''Nintendo - Pokemon Mini'', [''pokemon-mini'']),
      (''Sega - Master System - Mark III'', [''Sega Master System'', ''master-system'']),
      (''Sega - Mega Drive - Genesis'', [''Sega Mega Drive'', ''genesis'']),
      (''Sega - Game Gear'', [''Sega Game Gear'', ''game-gear'']),
      (''Sega - Saturn'', [''Sega Saturn'', ''saturn'']),
      (''Sega - Dreamcast'', [''Sega Dreamcast'', ''dreamcast'']),
      (''Sony - PlayStation'', [''Sony Playstation'', ''playstation'']),
      (''Sony - PlayStation Portable'', [''Sony Playstation Portable'', ''psp'']),
      (''Bandai - WonderSwan Color'', [''WonderSwan Color'', ''wonderswan-color'']),
      (''SNK - Neo Geo Pocket'', [''Neo Geo Pocket'', ''neo-geo-pocket'']),
      (''Coleco - Colecovision'', [''Colecovision'', ''colecovision'']),
      (''Mattel - Intellivision'', [''Intellivision'', ''intellivision'']),
      (''GCE - Vectrex'', [''Vectrex'', ''vectrex'']),
      (''Atari - 2600'', [''Atari 2600'', ''atari-2600'']),
      (''NEC - PC Engine SuperGrafx'', [''PC Engine SuperGrafx'', ''supergrafx'']),
      (''CHIP-8'', [''CHIP-8'', ''chip-8'']),
      (''DOS'', [''DOS'', ''ms-dos'']),
      (''ScummVM'', [''ScummVM'', ''scummvm'']),
      (''TIC-80'', [''TIC-80'', ''tic-80'']),
      (''WASM-4'', [''WASM-4'', ''wasm-4'']),
      (''LowResNX'', [''LowRes NX'', ''lowres-nx'']),
      (''VaporSpec'', [''VaporSpec'', ''vaporspec'']),
      (''Uzebox'', [''Uzebox'', ''uzebox'']),
      (''ChaiLove'', [''ChaiLove'', ''chailove'']),
      (''Lutro'', [''Lutro'', ''lutro'']),
      (''Cave Story'', [''Cave Story'', ''cave-story'']),
      (''Quake'', [''Quake'', ''quake'']),
      (''Quake II'', [''Quake II'', ''quake-2'']),
      (''DOOM'', [''DOOM'', ''doom'']),
      (''Wolfenstein 3D'', [''Wolfenstein 3D'', ''wolfenstein-3d'']),
      (''Tomb Raider'', [''Tomb Raider'', ''tomb-raider'']),
      (''Cannonball'', [''Cannonball'', ''cannonball'']),
      (''Rick Dangerous'', [''Rick Dangerous'', ''rick-dangerous'']),
      (''Dinothawr'', [''Dinothawr'', ''dinothawr'']),
      (''Super Bros War'', [''Super Bros War'', ''super-bros-war'']),
      (''Vircon32'', [''Vircon32'', ''vircon32'']),
      (''Utilities'', [''Utilities'', ''utils'']),
      (''MicroW8'', [''MicroW8'', ''micro-w8'']),
      (''PocketCDG'', [''PocketCDG'', ''pocket-cdg'']),
      (''Jump 'n Bump'', [''Jump 'n Bump'', ''jump-n-bump'']),
      (''Video'', [''Video Player'', ''video-player'']),
      (''Arduous'', [''Arduino'', ''arduino'']),
      (''Images'', [''Image Viewer'', ''image-viewer'']),
      (''Handheld Electronic Game'', [''Handheld Electronic Games (LCD)'', ''lcd-games''])]"

section \<open>Artwork rows: \<open>ROMDownloader.get_artwork_urls\<close>\<close>

definition artwork_wanted :: "int \<Rightarrow> artwork_row \<Rightarrow> bool" where
  \<comment> \<open>\<open>WHERE game_id = ? AND (type = 'boxart' OR type = 'screenshot')\<close>\<close>
  "artwork_wanted game_id r =
     (art_game_id r = Some game_id \<and>
      (art_type r = Some ''boxart'' \<or> art_type r = Some ''screenshot''))"

definition get_artwork_urls ::
  "artwork_row list \<Rightarrow> int \<Rightarrow> (string option \<times> string option) list" where
  \<comment> \<open>\<open>SELECT filename, type ... ORDER BY type, id\<close>; a result row is the pair of its
      two columns\<close>
  "get_artwork_urls artwork_table game_id =
     map (\<lambda>r. (art_filename r, art_type r))
       (sort_key (\<lambda>r. (art_type r, art_id r)) (filter (artwork_wanted game_id) artwork_table))"

section \<open>Downloading: \<open>ROMDownloader.download_artwork_parallel\<close>\<close>

text \<open>
  A path is the string that \<open>posixpath.join\<close> makes of its segments, which names the
  same file as the \<open>pathlib\<close> path. The file system maps a path to the file or directory
  there; of the directories only \<open>base_path\<close> itself is tracked. The network is a
  function from a URL to the body of the response, \<open>None\<close> when the request raises.
\<close>

datatype node = File string | Dir

type_synonym filesystem = "string \<rightharpoonup> node"

datatype py_error = FileExistsError | IsADirectoryError

definition GAMESDB_CDN :: string where
  "GAMESDB_CDN = ''https://cdn.thegamesdb.net/''"

definition path_join :: "string \<Rightarrow> string \<Rightarrow> string" where
  \<comment> \<open>\<open>Path(a) / b\<close>\<close>
  "path_join a b =
     (if b \<noteq> [] \<and> hd b = CHR ''/'' then b
      else if a = [] \<or> last a = CHR ''/'' then a @ b
      else a @ ''/'' @ b)"

definition path_exists :: "filesystem \<Rightarrow> string \<Rightarrow> bool" where
  \<comment> \<open>\<open>output_path.exists()\<close>\<close>
  "path_exists fs p = (fs p \<noteq> None)"

definition mkdir_parents :: "filesystem \<Rightarrow> string \<Rightarrow> py_error + filesystem" where
  \<comment> \<open>\<open>base_path.mkdir(parents=True, exist_ok=True)\<close>\<close>
  "mkdir_parents fs p =
     (case fs p of
        Some (File content) \<Rightarrow> Inl FileExistsError
      | Some Dir \<Rightarrow> Inr fs
      | None \<Rightarrow> Inr (fs(p \<mapsto> Dir)))"

definition format_value :: "string option \<Rightarrow> string" where
  \<comment> \<open>a column value inside an f-string\<close>
  "format_value v = (case v of None \<Rightarrow> ''None'' | Some s \<Rightarrow> s)"

definition output_path :: "string \<Rightarrow> string \<Rightarrow> string option \<Rightarrow> string" where
  \<comment> \<open>the \<open>output_path\<close> of one artwork row\<close>
  "output_path system_name original_filename ty =
     (let base_path = path_join ''ROMs'' system_name;
          safe_title = fst (splitext original_filename)
      in if ty = Some ''boxart'' then path_join base_path (safe_title @ ''-cover.jpg'')
         else path_join base_path (safe_title @ ''-screenshot.jpg''))"

fun download_tasks ::
  "filesystem \<Rightarrow> string \<Rightarrow> string \<Rightarrow> (string option \<times> string option) list \<Rightarrow>
   (string \<times> string) list" where
  \<comment> \<open>the loop that prepares \<open>download_tasks\<close>\<close>
  "download_tasks fs system_name original_filename [] = []"
| "download_tasks fs system_name original_filename (url_data # rest) =
     (let cdn_url = GAMESDB_CDN @ ''images/original/'' @ format_value (fst url_data);
          out = output_path system_name original_filename (snd url_data)
      in (if \<not> path_exists fs out then [(cdn_url, out)] else []) @
         download_tasks fs system_name original_filename rest)"

definition download_file ::
  "(string \<Rightarrow> string option) \<Rightarrow> filesystem \<Rightarrow> string \<times> string \<Rightarrow>
   (py_error + bool) \<times> filesystem" where
  \<comment> \<open>the request, then \<open>open(output_path, 'wb')\<close> and the writes; a failed request is
      caught and gives \<open>False\<close>\<close>
  "download_file net fs task =
     (case net (fst task) of
        None \<Rightarrow> (Inr False, fs)
      | Some body \<Rightarrow>
          (case fs (snd task) of
             Some Dir \<Rightarrow> (Inl IsADirectoryError, fs)
           | _ \<Rightarrow> (Inr True, fs(snd task \<mapsto> File body))))"

fun run_tasks ::
  "(string \<Rightarrow> string option) \<Rightarrow> filesystem \<Rightarrow> (string \<times> string) list \<Rightarrow> filesystem" where
  \<comment> \<open>the tasks of the pool, one after the other in the order given; the result of a task
      stays in its future and is not read\<close>
  "run_tasks net fs [] = fs"
| "run_tasks net fs (task # rest) = run_tasks net (snd (download_file net fs task)) rest"

definition download_artwork_parallel ::
  "(string \<Rightarrow> string option) \<Rightarrow> filesystem \<Rightarrow> string \<Rightarrow> string \<Rightarrow> string \<Rightarrow>
   (string option \<times> string option) list \<Rightarrow> py_error + filesystem" where
  "download_artwork_parallel net fs system_name original_filename game_title artwork_urls =
     (case mkdir_parents fs (path_join ''ROMs'' system_name) of
        Inl e \<Rightarrow> Inl e
      | Inr fs1 \<Rightarrow>
          (let tasks = download_tasks fs1 system_name original_filename artwork_urls
           in if tasks = [] then Inr fs1 else Inr (run_tasks net fs1 tasks)))"

section \<open>The import: \<open>convert_to_sqlite.import_data\<close>\<close>

text \<open>
  The source JSON after \<open>json.load\<close>, with the fields that the inserts into the join
  tables and into \<open>game_artwork\<close> read. A game has an integer \<open>id\<close> and a title; each
  of its lists may be missing or \<open>null\<close> (\<open>None\<close> here) and may hold \<open>null\<close>
  entries. The artwork is the dict \<open>include.boxart.data\<close>, from game id to a list of
  entries, as the list of its items. With these types no insert raises, so every
  \<open>except\<close> branch of the function is left out.
\<close>

record game_json =
  gj_id :: int
  gj_game_title :: string
  gj_developers :: "int option list option"
  gj_genres :: "int option list option"
  gj_publishers :: "int option list option"
  gj_alternates :: "string option list option"

record art_json =
  aj_type :: string
  aj_side :: "string option"
  aj_filename :: string
  aj_resolution :: "string option"

record import_json =
  ij_games :: "game_json list"
  ij_boxart :: "(int \<times> art_json list) list option"

text \<open>
  The tables that the claim is about, each as the list of its rows in insertion order.
  The tables \<open>systems\<close> and \<open>games\<close> are written by \<open>INSERT OR REPLACE\<close> with their
  own keys and are read by no insert into these five; they are not part of the state.
\<close>

record database =
  game_developers :: "(int option \<times> int option) list"
  game_genres :: "(int option \<times> int option) list"
  game_publishers :: "(int option \<times> int option) list"
  game_alternates :: "(int option \<times> string option) list"
  game_artwork :: "artwork_row list"

definition empty_database :: database where
  \<comment> \<open>the tables right after \<open>create_database\<close> on a new file\<close>
  "empty_database =
     \<lparr>game_developers = [], game_genres = [], game_publishers = [], game_alternates = [],
      game_artwork = []\<rparr>"

definition pk_conflict :: "'a option \<times> 'b option \<Rightarrow> 'a option \<times> 'b option \<Rightarrow> bool" where
  \<comment> \<open>two rows collide on a two-column \<open>PRIMARY KEY\<close> of an ordinary table: both
      columns are equal and not \<open>NULL\<close> (SQLite keeps \<open>NULL\<close>s distinct in a unique index)\<close>
  "pk_conflict new old =
     (fst new \<noteq> None \<and> snd new \<noteq> None \<and> fst new = fst old \<and> snd new = snd old)"

definition insert_or_ignore ::
  "'a option \<times> 'b option \<Rightarrow> ('a option \<times> 'b option) list \<Rightarrow> ('a option \<times> 'b option) list" where
  \<comment> \<open>\<open>INSERT OR IGNORE INTO t VALUES (?, ?)\<close>\<close>
  "insert_or_ignore row table =
     (if list_ex (pk_conflict row) table then table else table @ [row])"

fun safe_insert_many ::
  "('a option \<times> 'b option) list \<Rightarrow> ('a option \<times> 'b option) list \<Rightarrow> ('a option \<times> 'b option) list" where
  \<comment> \<open>\<open>for item in data: cursor.execute(sql, item)\<close> with the table as second argument;
      the statement is \<open>INSERT OR IGNORE\<close>, which raises no uniqueness error\<close>
  "safe_insert_many [] table = table"
| "safe_insert_many (item # data) table = safe_insert_many data (insert_or_ignore item table)"

definition truthy_list :: "'a list option \<Rightarrow> 'a list" where
  \<comment> \<open>\<open>if game.get(key):\<close> the list when it is present and not empty, else no items\<close>
  "truthy_list v = (case v of None \<Rightarrow> [] | Some xs \<Rightarrow> xs)"

definition unique_alternates :: "string option list \<Rightarrow> string list" where
  \<comment> \<open>\<open>list(set(alt for alt in game['alternates'] if alt))\<close>: the entries that are
      neither \<open>null\<close> nor empty, once each; the order of a Python set is not fixed, here
      it is the order of first occurrence\<close>
  "unique_alternates alts =
     remdups (concat (map (\<lambda>alt. case alt of None \<Rightarrow> [] | Some s \<Rightarrow> if s = [] then [] else [s])
                          alts))"

definition import_game :: "game_json \<Rightarrow> database \<Rightarrow> database" where
  \<comment> \<open>the body of the loop over \<open>data['data']['games']\<close>\<close>
  "import_game game db =
     db\<lparr>game_developers :=
          safe_insert_many (map (\<lambda>dev_id. (Some (gj_id game), dev_id))
                                (truthy_list (gj_developers game))) (game_developers db),
        game_genres :=
          safe_insert_many (map (\<lambda>genre_id. (Some (gj_id game), genre_id))
                                (truthy_list (gj_genres game))) (game_genres db),
        game_publishers :=
          safe_insert_many (map (\<lambda>pub_id. (Some (gj_id game), pub_id))
                                (truthy_list (gj_publishers game))) (game_publishers db),
        game_alternates :=
          safe_insert_many (map (\<lambda>alt. (Some (gj_id game), Some alt))
                                (unique_alternates (truthy_list (gj_alternates game))))
            (game_alternates db)\<rparr>"

definition next_rowid :: "artwork_row list \<Rightarrow> int" where
  \<comment> \<open>the key SQLite gives a row inserted without \<open>id\<close>: one more than the largest in use\<close>
  "next_rowid table = (if table = [] then 1 else Max (set (map art_id table)) + 1)"

definition insert_artwork :: "int \<Rightarrow> art_json \<Rightarrow> artwork_row list \<Rightarrow> artwork_row list" where
  \<comment> \<open>\<open>INSERT OR REPLACE INTO game_artwork (game_id, type, side, filename, resolution)\<close>:
      no \<open>id\<close> is given and the table has no other key, so nothing is ever replaced\<close>
  "insert_artwork game_id art table =
     table @ [\<lparr>art_id = next_rowid table, art_game_id = Some game_id,
               art_type = Some (aj_type art), art_side = aj_side art,
               art_filename = Some (aj_filename art), art_resolution = aj_resolution art\<rparr>]"

fun import_artworks :: "int \<Rightarrow> art_json list \<Rightarrow> artwork_row list \<Rightarrow> artwork_row list" where
  \<comment> \<open>\<open>for art in artworks\<close>\<close>
  "import_artworks game_id [] table = table"
| "import_artworks game_id (art # artworks) table =
     import_artworks game_id artworks (insert_artwork game_id art table)"

fun import_boxart :: "(int \<times> art_json list) list \<Rightarrow> artwork_row list \<Rightarrow> artwork_row list" where
  \<comment> \<open>\<open>for game_id, artworks in data['include']['boxart']['data'].items()\<close>\<close>
  "import_boxart [] table = table"
| "import_boxart (entry # entries) table =
     import_boxart entries (import_artworks (fst entry) (snd entry) table)"

fun import_games :: "game_json list \<Rightarrow> database \<Rightarrow> database" where
  \<comment> \<open>\<open>for i, game in enumerate(data['data']['games'], 1)\<close>\<close>
  "import_games [] db = db"
| "import_games (game # games) db = import_games games (import_game game db)"

definition import_data :: "database \<Rightarrow> import_json \<Rightarrow> database" where
  "import_data db data =
     (let db1 = import_games (ij_games data) db
      in case ij_boxart data of
           None \<Rightarrow> db1
         | Some entries \<Rightarrow> db1\<lparr>game_artwork := import_boxart entries (game_artwork db1)\<rparr>)"

definition sample_source :: import_json where
  \<comment> \<open>a source file with one game and one artwork entry for it\<close>
  "sample_source =
     \<lparr>ij_games =
        [\<lparr>gj_id = 1, gj_game_title = ''Super Mario Bros'', gj_developers = Some [Some 10],
          gj_genres = Some [Some 2], gj_publishers = Some [Some 3],
          gj_alternates = Some [Some ''SMB'']\<rparr>],
      ij_boxart =
        Some [(1, [\<lparr>aj_type = ''boxart'', aj_side = Some ''front'',
                    aj_filename = ''boxart/front/1-1.jpg'', aj_resolution = None\<rparr>])]\<rparr>"

definition developer_rows :: "game_json \<Rightarrow> (int option \<times> int option) list" where
  "developer_rows game = map (\<lambda>dev_id. (Some (gj_id game), dev_id)) (truthy_list (gj_developers game))"

definition genre_rows :: "game_json \<Rightarrow> (int option \<times> int option) list" where
  "genre_rows game = map (\<lambda>genre_id. (Some (gj_id game), genre_id)) (truthy_list (gj_genres game))"

definition publisher_rows :: "game_json \<Rightarrow> (int option \<times> int option) list" where
  "publisher_rows game = map (\<lambda>pub_id. (Some (gj_id game), pub_id)) (truthy_list (gj_publishers game))"

definition alternate_rows :: "game_json \<Rightarrow> (int option \<times> string option) list" where
  "alternate_rows game =
     map (\<lambda>alt. (Some (gj_id game), Some alt)) (unique_alternates (truthy_list (gj_alternates game)))"

definition no_null_ids :: "game_json \<Rightarrow> bool" where
  \<comment> \<open>no list of ids of the game holds a \<open>null\<close>\<close>
  "no_null_ids game =
     (None \<notin> set (truthy_list (gj_developers game)) \<and>
      None \<notin> set (truthy_list (gj_genres game)) \<and>
      None \<notin> set (truthy_list (gj_publishers game)))"

section \<open>Properties of the normalizer\<close>

subsection \<open>Characters that the steps can produce\<close>

lemma set_underscores_to_spaces: "CHR ''_'' \<notin> set (underscores_to_spaces s)"
  by (auto simp: underscores_to_spaces_def)

lemma set_camel_split: "set (camel_split s) \<subseteq> insert (CHR '' '') (set s)"
  by (induction s rule: camel_split.induct) auto

lemma set_str_remove: "set (str_remove old s) \<subseteq> set s"
proof (induction old s rule: str_remove.induct)
  case (1 old)
  then show ?case by simp
next
  case (2 old c cs)
  have "set (drop (length old) (c # cs)) \<subseteq> set (c # cs)"
    by (rule set_drop_subset)
  with 2 show ?case
    by (cases "old \<noteq> [] \<and> prefix old (c # cs)") auto
qed

lemma str_remove_absent_char:
  "c \<in> set old \<Longrightarrow> c \<notin> set s \<Longrightarrow> str_remove old s = s"
proof (induction old s rule: str_remove.induct)
  case (1 old)
  then show ?case by simp
next
  case (2 old d ds)
  have "\<not> prefix old (d # ds)"
    using 2(3,4) set_mono_prefix by fastforce
  with 2 show ?case by simp
qed

lemma underscore_free: "CHR ''_'' \<notin> set (before_suffixes name)"
  using set_camel_split set_underscores_to_spaces
  by (fastforce simp: before_suffixes_def)


lemma remove_suffixes_append:
  "remove_suffixes (xs @ ys) s = remove_suffixes ys (remove_suffixes xs s)"
  by (induction xs arbitrary: s) auto

lemma remove_suffixes_win64:
  assumes "CHR ''_'' \<notin> set s"
  shows "remove_suffixes suffixes_list s = remove_suffixes suffixes_without_win64 s"
proof -
  let ?t = "str_remove ''by MooglyGuy (PD)'' (str_remove ''-latest'' s)"
  have "set ?t \<subseteq> set s"
    using set_str_remove by blast
  with assms have "CHR ''_'' \<notin> set ?t" by blast
  then have "str_remove ''_Win64'' ?t = ?t"
    by (intro str_remove_absent_char [of "CHR ''_''"]) simp_all
  then show ?thesis
    by (simp add: suffixes_list_def suffixes_without_win64_def)
qed

text \<open>
  Claim C10. The entry \<open>_Win64\<close> of the list of suffixes never removes anything: the name
  that reaches the loop over the suffixes holds no underscore, since the underscores were
  turned into spaces before, and \<open>clean_game_name\<close> returns the same string as the
  method with that entry taken out of the list.
\<close>

theorem win64_entry_dead:
  "CHR ''_'' \<notin> set (before_suffixes name) \<and>
   clean_game_name name = clean_game_name_with suffixes_without_win64 name"
  using underscore_free [of name] remove_suffixes_win64 [of "before_suffixes name"]
  by (simp add: clean_game_name_def clean_game_name_with_def)

subsection \<open>The trailing parenthesized group\<close>

lemma dropWhile_skip: "\<forall>x\<in>set xs. P x \<Longrightarrow> dropWhile P (xs @ ys) = dropWhile P ys"
  by (induction xs) auto

lemma takeWhile_skip: "\<forall>x\<in>set xs. P x \<Longrightarrow> takeWhile P (xs @ ys) = xs @ takeWhile P ys"
  by (induction xs) auto

lemma set_takeWhile_append: "set (takeWhile P xs) \<subseteq> set (takeWhile P (xs @ ys))"
  by (induction xs) auto

lemma not_space_paren: "\<not> is_space (CHR ''('')"
  by (simp add: is_space_def)

lemma paren_tail_group:
  assumes "list_all is_space ws" and "list_all is_space ws'" and "CHR '')'' \<notin> set g"
  shows "paren_tail (ws @ ''('' @ g @ '')'' @ ws')"
proof -
  have 1: "dropWhile is_space (ws @ ''('' @ g @ '')'' @ ws') = CHR ''('' # (g @ '')'' @ ws')"
    using assms(1) not_space_paren by (simp add: dropWhile_skip list_all_iff)
  have 2: "dropWhile (\<lambda>x. x \<noteq> CHR '')'') (g @ '')'' @ ws') = CHR '')'' # ws'"
  proof -
    have "\<forall>x\<in>set g. x \<noteq> CHR '')''"
      using assms(3) by auto
    then have "dropWhile (\<lambda>x. x \<noteq> CHR '')'') (g @ '')'' @ ws')
        = dropWhile (\<lambda>x. x \<noteq> CHR '')'') ('')'' @ ws')"
      by (rule dropWhile_skip)
    then show ?thesis by simp
  qed
  show ?thesis
    unfolding paren_tail_def 1 using 2 assms(2) by simp
qed

lemma paren_tail_earlier:
  assumes "u \<noteq> []" and "\<not> is_space (last u)"
    and "CHR ''('' \<notin> set (takeWhile (\<lambda>c. c \<noteq> CHR '')'') (rev u))"
    and "CHR ''('' \<in> set rest"
  shows "\<not> paren_tail (u @ rest)"
proof
  assume pt: "paren_tail (u @ rest)"
  have lu: "last u \<in> set u" using assms(1) by simp
  then have dw: "dropWhile is_space (u @ rest) = dropWhile is_space u @ rest"
    using assms(2) by (rule dropWhile_append1)
  have ne: "dropWhile is_space u \<noteq> []"
    using lu assms(2) by (auto simp: dropWhile_eq_Nil_conv)
  then obtain c r where cr: "dropWhile is_space u = c # r"
    by (cases "dropWhile is_space u") auto
  from pt have c: "c = CHR ''(''"
    and tl: "case dropWhile (\<lambda>x. x \<noteq> CHR '')'') (r @ rest) of [] \<Rightarrow> False | d # t \<Rightarrow> list_all is_space t"
    by (simp_all add: paren_tail_def dw cr)
  have u_split: "u = takeWhile is_space u @ c # r"
    using takeWhile_dropWhile_id [of is_space u] by (simp add: cr)
  have "CHR '')'' \<in> set r"
  proof (rule ccontr)
    assume nr: "CHR '')'' \<notin> set r"
    have "rev u = rev r @ c # rev (takeWhile is_space u)"
      by (subst u_split) simp
    moreover have "\<forall>x\<in>set (rev r). x \<noteq> CHR '')''"
      using nr by auto
    ultimately have "takeWhile (\<lambda>c. c \<noteq> CHR '')'') (rev u)
        = rev r @ takeWhile (\<lambda>c. c \<noteq> CHR '')'') (c # rev (takeWhile is_space u))"
      by (simp only: takeWhile_skip)
    then have "CHR ''('' \<in> set (takeWhile (\<lambda>c. c \<noteq> CHR '')'') (rev u))"
      using c by simp
    with assms(3) show False ..
  qed
  then have "dropWhile (\<lambda>x. x \<noteq> CHR '')'') (r @ rest) = dropWhile (\<lambda>x. x \<noteq> CHR '')'') r @ rest"
    by (intro dropWhile_append1) simp_all
  moreover obtain d t where "dropWhile (\<lambda>x. x \<noteq> CHR '')'') r = d # t"
    using \<open>CHR '')'' \<in> set r\<close>
    by (cases "dropWhile (\<lambda>x. x \<noteq> CHR '')'') r") (auto simp: dropWhile_eq_Nil_conv)
  ultimately have "list_all is_space (t @ rest)"
    using tl by simp
  then have "is_space (CHR ''('')"
    using assms(4) by (auto simp: list_all_iff)
  with not_space_paren show False ..
qed

lemma strip_paren_group_leftmost:
  assumes "paren_tail rest" and "CHR ''('' \<in> set rest"
  shows "pre = [] \<or> \<not> is_space (last pre) \<Longrightarrow>
         CHR ''('' \<notin> set (takeWhile (\<lambda>c. c \<noteq> CHR '')'') (rev pre)) \<Longrightarrow>
         strip_paren_group (pre @ rest) = pre"
proof (induction pre)
  case Nil
  from assms(2) obtain c cs where "rest = c # cs" by (cases rest) auto
  with assms(1) show ?case by simp
next
  case (Cons x pre)
  from Cons.prems(1) have l: "\<not> is_space (last (x # pre))" by simp
  have "\<not> paren_tail ((x # pre) @ rest)"
    using _ l Cons.prems(2) assms(2) by (rule paren_tail_earlier) simp
  then have step: "strip_paren_group ((x # pre) @ rest) = x # strip_paren_group (pre @ rest)"
    by simp
  have a: "pre = [] \<or> \<not> is_space (last pre)"
    using l by (cases pre) auto
  have "set (takeWhile (\<lambda>c. c \<noteq> CHR '')'') (rev pre))
        \<subseteq> set (takeWhile (\<lambda>c. c \<noteq> CHR '')'') (rev (x # pre)))"
    using set_takeWhile_append [of _ "rev pre" "[x]"] by simp
  with Cons.prems(2) have b: "CHR ''('' \<notin> set (takeWhile (\<lambda>c. c \<noteq> CHR '')'') (rev pre))"
    by blast
  from Cons.IH [OF a b] step show ?case by simp
qed

text \<open>
  Claim C2, as stated: when the name body ends with a parenthesized group, the result is
  the name body without that group and nothing else is changed. The spec's own example
  refutes it, because the later steps rewrite the rest of the body; and for a body with an
  unclosed parenthesis before the group, more than the last group is removed.
\<close>

theorem trailing_group_counterexample:
  "fst (splitext ''Super_Mario_Bros_(USA).zip'') = ''Super_Mario_Bros_'' @ ''('' @ ''USA'' @ '')'' \<and>
   clean_game_name ''Super_Mario_Bros_(USA).zip'' = ''Super Mario Bros'' \<and>
   ''Super Mario Bros'' \<noteq> ''Super_Mario_Bros_'' \<and>
   fst (splitext ''Game (a (b).zip'') = ''Game (a '' @ ''('' @ ''b'' @ '')'' \<and>
   clean_game_name ''Game (a (b).zip'' = ''Game''"
  by code_simp

text \<open>
  Claim C2, amended: when the name body is \<open>pre\<close>, a run of whitespace, a group
  \<open>(g)\<close> without a closing parenthesis inside, and a run of whitespace, where \<open>pre\<close>
  does not end in whitespace and has no opening parenthesis behind its last closing one,
  the second step removes exactly the group with the whitespace around it and keeps
  \<open>pre\<close>; the result of the method is what the later steps make of \<open>pre\<close>.
\<close>

theorem trailing_group_removed:
  assumes "fst (splitext raw) = pre @ ws @ ''('' @ g @ '')'' @ ws'"
    and "list_all is_space ws" and "list_all is_space ws'"
    and "CHR '')'' \<notin> set g"
    and "pre = [] \<or> \<not> is_space (last pre)"
    and "CHR ''('' \<notin> set (takeWhile (\<lambda>c. c \<noteq> CHR '')'') (rev pre))"
  shows "strip_paren_group (fst (splitext raw)) = pre \<and>
         clean_game_name raw =
           collapse_spaces (remove_suffixes suffixes_list
             (camel_split (underscores_to_spaces pre)))"
proof -
  let ?rest = "ws @ ''('' @ g @ '')'' @ ws'"
  have "paren_tail ?rest"
    using assms(2,3,4) by (rule paren_tail_group)
  moreover have "CHR ''('' \<in> set ?rest" by simp
  ultimately have "strip_paren_group (pre @ ?rest) = pre"
    using assms(5,6) by (rule strip_paren_group_leftmost)
  then have "strip_paren_group (fst (splitext raw)) = pre"
    by (simp only: assms(1))
  then show ?thesis
    by (simp add: clean_game_name_def clean_game_name_with_def before_suffixes_def)
qed

theorem trailing_group_removed_witness:
  "fst (splitext ''Sonic (Japan) (Rev 1).zip'') = ''Sonic (Japan)'' @ '' '' @ ''('' @ ''Rev 1'' @ '')'' @ [] \<and>
   list_all is_space '' '' \<and> list_all is_space [] \<and> CHR '')'' \<notin> set ''Rev 1'' \<and>
   \<not> is_space (last ''Sonic (Japan)'') \<and>
   CHR ''('' \<notin> set (takeWhile (\<lambda>c. c \<noteq> CHR '')'') (rev ''Sonic (Japan)'')) \<and>
   strip_paren_group (fst (splitext ''Sonic (Japan) (Rev 1).zip'')) = ''Sonic (Japan)'' \<and>
   clean_game_name ''Sonic (Japan) (Rev 1).zip'' = ''Sonic (Japan)''"
proof -
  have h1: "fst (splitext ''Sonic (Japan) (Rev 1).zip'') = ''Sonic (Japan)'' @ '' '' @ ''('' @ ''Rev 1'' @ '')'' @ []"
    by code_simp
  have h2: "list_all is_space '' ''" by code_simp
  have h3: "list_all is_space []" by simp
  have h4: "CHR '')'' \<notin> set ''Rev 1''" by simp
  have h5: "\<not> is_space (last ''Sonic (Japan)'')" by code_simp
  have h6: "CHR ''('' \<notin> set (takeWhile (\<lambda>c. c \<noteq> CHR '')'') (rev ''Sonic (Japan)''))" by simp
  have h7: "collapse_spaces (remove_suffixes suffixes_list
             (camel_split (underscores_to_spaces ''Sonic (Japan)''))) = ''Sonic (Japan)''"
    by code_simp
  from h5 have h5': "''Sonic (Japan)'' = [] \<or> \<not> is_space (last ''Sonic (Japan)'')" by blast
  from trailing_group_removed [OF h1 h2 h3 h4 h5' h6] h7
  have "strip_paren_group (fst (splitext ''Sonic (Japan) (Rev 1).zip'')) = ''Sonic (Japan)'' \<and>
        clean_game_name ''Sonic (Japan) (Rev 1).zip'' = ''Sonic (Japan)''"
    by simp
  with h1 h2 h3 h4 h5 h6 show ?thesis by blast
qed

subsection \<open>Removal of the suffixes\<close>

lemma str_remove_no_occurrence:
  "\<not> sublist old s \<Longrightarrow> str_remove old s = s"
proof (induction old s rule: str_remove.induct)
  case (1 old)
  then show ?case by simp
next
  case (2 old c cs)
  have np: "\<not> prefix old (c # cs)"
  proof
    assume "prefix old (c # cs)"
    then have "sublist old (c # cs)" by (rule prefix_imp_sublist)
    with 2(3) show False ..
  qed
  have ns: "\<not> sublist old cs"
  proof
    assume "sublist old cs"
    then have "sublist old (c # cs)" by (simp add: sublist_Cons_right)
    with 2(3) show False ..
  qed
  from np have c: "\<not> (old \<noteq> [] \<and> prefix old (c # cs))" by blast
  from 2(2) [OF c ns] have "str_remove old cs = cs" .
  moreover from c have "str_remove old (c # cs) = c # str_remove old cs"
    by (simp only: str_remove.simps if_False)
  ultimately show ?case by simp
qed
lemma str_remove_at_prefix:
  assumes "old \<noteq> []"
  shows "str_remove old (old @ b) = str_remove old b"
proof -
  from assms obtain c cs where e: "old @ b = c # cs"
    by (cases old) auto
  have p: "prefix old (c # cs)"
    unfolding e [symmetric] by simp
  have "str_remove old (c # cs) = str_remove old (drop (length old) (c # cs))"
    using assms p by simp
  also have "drop (length old) (c # cs) = b"
    unfolding e [symmetric] by simp
  finally show ?thesis
    unfolding e [symmetric] .
qed

lemma prefix_of_short:
  assumes "prefix xs (ys @ zs)" and "length xs \<le> length ys"
  shows "prefix xs ys"
proof -
  from assms(1) consider "prefix xs ys" | us where "xs = ys @ us" "prefix us zs"
    by (auto simp: prefix_append)
  then show ?thesis
  proof cases
    case 1 then show ?thesis .
  next
    case 2
    with assms(2) have "us = []" by simp
    with 2 show ?thesis by simp
  qed
qed

lemma str_remove_first_occurrence:
  "old \<noteq> [] \<Longrightarrow> \<not> sublist old (a @ butlast old) \<Longrightarrow>
   str_remove old (a @ old @ b) = a @ str_remove old b"
proof (induction a)
  case Nil
  then show ?case by (simp add: str_remove_at_prefix)
next
  case (Cons x a)
  have split: "(x # a) @ old @ b = ((x # a) @ butlast old) @ ([last old] @ b)"
    using Cons.prems(1) by simp
  have np: "\<not> prefix old ((x # a) @ old @ b)"
  proof
    assume "prefix old ((x # a) @ old @ b)"
    then have "prefix old (((x # a) @ butlast old) @ ([last old] @ b))"
      by (simp only: split)
    moreover have "length old \<le> length ((x # a) @ butlast old)"
      by simp
    ultimately have "prefix old ((x # a) @ butlast old)"
      by (rule prefix_of_short)
    then show False
      using Cons.prems(2) prefix_imp_sublist by blast
  qed
  have "\<not> sublist old (a @ butlast old)"
  proof
    assume "sublist old (a @ butlast old)"
    then have "sublist old (x # (a @ butlast old))"
      by (simp add: sublist_Cons_right)
    with Cons.prems(2) show False by simp
  qed
  with Cons.IH Cons.prems(1) have ih: "str_remove old (a @ old @ b) = a @ str_remove old b"
    by blast
  have "str_remove old (x # (a @ old @ b)) = x # str_remove old (a @ old @ b)"
    using np by simp
  with ih show ?case by simp
qed

lemma remove_suffixes_foldl:
  "remove_suffixes sfx name = foldl (\<lambda>n s. str_remove s n) name sfx"
  by (induction sfx arbitrary: name) auto

text \<open>
  Claim C3, as stated: at most one occurrence of each suffix is removed per call. A name
  with the suffix \<open>-latest\<close> twice loses both occurrences, where removal of one occurrence
  would keep the second.
\<close>

theorem suffix_removal_counterexample:
  "before_suffixes ''x-latest-latest.zip'' = ''x-latest-latest'' \<and>
   remove_suffixes suffixes_list ''x-latest-latest'' = ''x'' \<and>
   remove_suffixes_once suffixes_list ''x-latest-latest'' = ''x-latest'' \<and>
   clean_game_name ''x-latest-latest.zip'' = ''x''"
  by code_simp

text \<open>
  Claim C3, amended: the loop makes one pass of \<open>str.replace\<close> per suffix, in the order
  of the list; a pass compares characters verbatim, leaves a name without an occurrence of
  the suffix as it is, and otherwise drops the leftmost occurrence and goes on in the same
  way behind it, so it removes every occurrence it meets and not only the first.
\<close>

theorem suffix_removal_passes:
  "remove_suffixes sfx name = foldl (\<lambda>n s. str_remove s n) name sfx \<and>
   (\<not> sublist old s \<longrightarrow> str_remove old s = s) \<and>
   (old \<noteq> [] \<and> \<not> sublist old (a @ butlast old) \<longrightarrow>
      str_remove old (a @ old @ b) = a @ str_remove old b)"
  using remove_suffixes_foldl str_remove_no_occurrence str_remove_first_occurrence
  by blast

theorem suffix_removal_passes_witness:
  "\<not> sublist ''-latest'' ''Zelda-Latest'' \<and> str_remove ''-latest'' ''Zelda-Latest'' = ''Zelda-Latest'' \<and>
   ''-latest'' \<noteq> [] \<and> \<not> sublist ''-latest'' (''x'' @ butlast ''-latest'') \<and>
   str_remove ''-latest'' (''x'' @ ''-latest'' @ ''-latest-y'') = ''x'' @ str_remove ''-latest'' ''-latest-y'' \<and>
   str_remove ''-latest'' ''-latest-y'' = ''-y''"
proof -
  have h1: "\<not> sublist ''-latest'' ''Zelda-Latest''" by code_simp
  have h2: "''-latest'' \<noteq> []" by simp
  have h3: "\<not> sublist ''-latest'' (''x'' @ butlast ''-latest'')" by code_simp
  have h4: "str_remove ''-latest'' ''-latest-y'' = ''-y''" by code_simp
  note t = suffix_removal_passes [of "[]" "[]" "''-latest''" _ "''x''" "''-latest-y''"]
  from t [of "''Zelda-Latest''"] h1 have c1: "str_remove ''-latest'' ''Zelda-Latest'' = ''Zelda-Latest''"
    by blast
  from t [of "[]"] h2 h3
  have c2: "str_remove ''-latest'' (''x'' @ ''-latest'' @ ''-latest-y'') = ''x'' @ str_remove ''-latest'' ''-latest-y''"
    by blast
  from h1 h2 h3 h4 c1 c2 show ?thesis by blast
qed

subsection \<open>Purity\<close>

lemma assign_name_str:
  "assign_name (re_sub f) \<lparr>fr_self = self, fr_name = PyStr s\<rparr>
     = Next \<lparr>fr_self = self, fr_name = PyStr (f s)\<rparr>"
  "assign_name (str_method f) \<lparr>fr_self = self, fr_name = PyStr s\<rparr>
     = Next \<lparr>fr_self = self, fr_name = PyStr (f s)\<rparr>"
  "assign_name os_path_splitext_root \<lparr>fr_self = self, fr_name = PyStr s\<rparr>
     = Next \<lparr>fr_self = self, fr_name = PyStr (fst (splitext s))\<rparr>"
  by (simp_all add: assign_name_def re_sub_def str_method_def os_path_splitext_root_def)

lemma then_do_Next: "then_do (Next fr) rest = rest fr"
  by (simp add: then_do_def)

lemma suffix_loop_str:
  "suffix_loop sfx \<lparr>fr_self = self, fr_name = PyStr s\<rparr>
     = Next \<lparr>fr_self = self, fr_name = PyStr (remove_suffixes sfx s)\<rparr>"
  by (induction sfx arbitrary: s) (simp_all add: assign_name_str then_do_Next)

lemma clean_game_name_body_str:
  "clean_game_name_body \<lparr>fr_self = self, fr_name = PyStr s\<rparr>
     = Next \<lparr>fr_self = self,
          fr_name = PyStr (str_join '' '' (py_split (remove_suffixes suffixes_list (before_suffixes s))))\<rparr>"
  by (simp add: clean_game_name_body_def assign_name_str then_do_Next suffix_loop_str
        before_suffixes_def)

lemma clean_game_name_exec_str:
  "clean_game_name_exec self (PyStr s) = (Inr (PyStr (clean_game_name s)), self)"
  by (simp add: clean_game_name_exec_def clean_game_name_body_str str_method_def
        clean_game_name_def clean_game_name_with_def collapse_spaces_def)

lemma clean_game_name_exec_other:
  "clean_game_name_exec self PyOther = (Inl TypeError, self)"
  by (simp add: clean_game_name_exec_def clean_game_name_body_def assign_name_def
        os_path_splitext_root_def then_do_def)

text \<open>
  Claim C4. \<open>clean_game_name\<close> is a pure, deterministic and total function on strings:
  called with any string, the empty one included, the method raises nothing and returns a
  string, which is the normalized name; the object is the same after the call as before,
  whatever the argument was; and the value returned for a string depends neither on the
  object nor on a call made before.
\<close>

theorem clean_game_name_total_pure:
  "clean_game_name_exec self (PyStr s) = (Inr (PyStr (clean_game_name s)), self) \<and>
   clean_game_name_exec self (PyStr []) = (Inr (PyStr []), self) \<and>
   fst (clean_game_name_exec self (PyStr s)) = fst (clean_game_name_exec self' (PyStr s)) \<and>
   snd (clean_game_name_exec self v) = self \<and>
   fst (clean_game_name_exec (snd (clean_game_name_exec self v)) (PyStr s))
     = fst (clean_game_name_exec self (PyStr s))"
proof -
  have e: "clean_game_name [] = []" by code_simp
  have k: "snd (clean_game_name_exec self v) = self"
    by (cases v) (simp_all add: clean_game_name_exec_str clean_game_name_exec_other)
  show ?thesis
    using e by (simp add: clean_game_name_exec_str k)
qed

section \<open>Properties of the resolver\<close>

subsection \<open>The pattern match of \<open>LIKE\<close>\<close>

















subsection \<open>Exact match, then pattern match\<close>




section \<open>Properties of the platform name resolution\<close>





section \<open>Properties of the artwork lookup\<close>

text \<open>
  Claim C6, as stated: the lookup returns the rows of the game whose type is \<open>cover\<close> or
  \<open>screenshot\<close>. The query asks for the types \<open>boxart\<close> and \<open>screenshot\<close>: a row of
  type \<open>cover\<close> is not returned and a row of type \<open>boxart\<close> is.
\<close>

theorem artwork_types_counterexample:
  "get_artwork_urls
     [\<lparr>art_id = 1, art_game_id = Some 5, art_type = Some ''cover'', art_side = Some ''front'',
       art_filename = Some ''cover/5-1.jpg'', art_resolution = None\<rparr>,
      \<lparr>art_id = 2, art_game_id = Some 5, art_type = Some ''boxart'', art_side = Some ''front'',
       art_filename = Some ''boxart/front/5-1.jpg'', art_resolution = None\<rparr>] 5
   = [(Some ''boxart/front/5-1.jpg'', Some ''boxart'')] \<and>
   ''boxart'' \<noteq> ''cover'' \<and> ''boxart'' \<noteq> ''screenshot''"
  by code_simp

lemma sorted_map_fst_key:
  "sorted (map (\<lambda>r. (f r, g r)) xs) \<Longrightarrow> sorted (map f xs)"
  by (induction xs) (auto simp: less_eq_prod_def)

text \<open>
  Claim C6, amended: the lookup returns exactly the rows of \<open>game_artwork\<close> for that game
  whose type is \<open>boxart\<close> or \<open>screenshot\<close>, each as its file name and type and as often
  as it is in the table, and no row of another type; the rows come ordered by type.
\<close>

theorem get_artwork_urls_rows:
  "mset (get_artwork_urls artwork_table game_id)
     = mset (map (\<lambda>r. (art_filename r, art_type r))
          (filter (\<lambda>r. art_game_id r = Some game_id \<and>
                        (art_type r = Some ''boxart'' \<or> art_type r = Some ''screenshot''))
             artwork_table)) \<and>
   snd ` set (get_artwork_urls artwork_table game_id) \<subseteq> {Some ''boxart'', Some ''screenshot''} \<and>
   sorted (map snd (get_artwork_urls artwork_table game_id))"
proof -
  let ?sel = "filter (artwork_wanted game_id) artwork_table"
  let ?key = "\<lambda>r. (art_type r, art_id r)"
  have w: "artwork_wanted game_id = (\<lambda>r. art_game_id r = Some game_id \<and>
                        (art_type r = Some ''boxart'' \<or> art_type r = Some ''screenshot''))"
    by (rule ext) (simp add: artwork_wanted_def)
  have "mset (get_artwork_urls artwork_table game_id)
        = image_mset (\<lambda>r. (art_filename r, art_type r)) (mset (sort_key ?key ?sel))"
    by (simp add: get_artwork_urls_def)
  also have "\<dots> = image_mset (\<lambda>r. (art_filename r, art_type r)) (mset ?sel)"
    by (simp only: mset_sort)
  finally have a: "mset (get_artwork_urls artwork_table game_id)
     = mset (map (\<lambda>r. (art_filename r, art_type r)) ?sel)"
    by simp
  have "set (sort_key ?key ?sel) = set ?sel" by simp
  then have b: "snd ` set (get_artwork_urls artwork_table game_id)
        \<subseteq> {Some ''boxart'', Some ''screenshot''}"
    by (auto simp: get_artwork_urls_def artwork_wanted_def)
  have "sorted (map ?key (sort_key ?key ?sel))"
    by (rule sorted_sort_key)
  then have "sorted (map art_type (sort_key ?key ?sel))"
    by (rule sorted_map_fst_key)
  then have c: "sorted (map snd (get_artwork_urls artwork_table game_id))"
    by (simp add: get_artwork_urls_def comp_def)
  from a b c show ?thesis by (simp only: w) 
qed

section \<open>Properties of the download\<close>

subsection \<open>Output paths\<close>





lemma download_tasks_member:
  "(url, p) \<in> set (download_tasks fs sn fn urls) \<Longrightarrow>
   \<exists>row. row \<in> set urls \<and>
     url = GAMESDB_CDN @ ''images/original/'' @ format_value (fst row) \<and>
     p = output_path sn fn (snd row) \<and> \<not> path_exists fs p"
proof (induction urls)
  case Nil
  then show ?case by simp
next
  case (Cons u urls)
  from Cons.prems consider
    "url = GAMESDB_CDN @ ''images/original/'' @ format_value (fst u)"
    "p = output_path sn fn (snd u)" "\<not> path_exists fs p"
    | "(url, p) \<in> set (download_tasks fs sn fn urls)"
    by (auto simp: Let_def split: if_splits)
  then show ?case
  proof cases
    case 1
    then have "u \<in> set (u # urls) \<and>
       url = GAMESDB_CDN @ ''images/original/'' @ format_value (fst u) \<and>
       p = output_path sn fn (snd u) \<and> \<not> path_exists fs p"
      by simp
    then show ?thesis by blast
  next
    case 2
    from Cons.IH [OF this] obtain row where "row \<in> set urls"
      "url = GAMESDB_CDN @ ''images/original/'' @ format_value (fst row)"
      "p = output_path sn fn (snd row)" "\<not> path_exists fs p"
      by blast
    then have "row \<in> set (u # urls) \<and>
       url = GAMESDB_CDN @ ''images/original/'' @ format_value (fst row) \<and>
       p = output_path sn fn (snd row) \<and> \<not> path_exists fs p"
      by simp
    then show ?thesis by blast
  qed
qed



subsection \<open>Existing files\<close>

lemma download_file_other_paths:
  "p \<noteq> snd task \<Longrightarrow> snd (download_file net fs task) p = fs p"
  by (auto simp: download_file_def split: option.splits node.splits)

lemma run_tasks_other_paths:
  "p \<notin> snd ` set order \<Longrightarrow> run_tasks net fs order p = fs p"
proof (induction order arbitrary: fs)
  case Nil
  then show ?case by simp
next
  case (Cons t order)
  from Cons.prems have 1: "p \<noteq> snd t" and 2: "p \<notin> snd ` set order" by auto
  have "run_tasks net fs (t # order) p = run_tasks net (snd (download_file net fs t)) order p"
    by simp
  also have "\<dots> = snd (download_file net fs t) p"
    using 2 by (rule Cons.IH)
  also have "\<dots> = fs p"
    using 1 by (rule download_file_other_paths)
  finally show ?case .
qed

lemma download_tasks_fresh:
  "q \<in> snd ` set (download_tasks fs sn fn urls) \<Longrightarrow> fs q = None"
proof -
  assume "q \<in> snd ` set (download_tasks fs sn fn urls)"
  then obtain u where "(u, q) \<in> set (download_tasks fs sn fn urls)" by auto
  from download_tasks_member [OF this] show ?thesis
    by (auto simp: path_exists_def)
qed

lemma mkdir_parents_keeps:
  "mkdir_parents fs b = Inr fs1 \<Longrightarrow> fs p \<noteq> None \<Longrightarrow> fs1 p = fs p"
  by (auto simp: mkdir_parents_def split: option.splits node.splits)

text \<open>
  Claim C9. A path that exists before the call of \<open>download_artwork_parallel\<close> is the
  output path of no download task, and it holds the same after the call as before,
  whatever the order in which the pool runs the tasks or a part of them.
\<close>

theorem existing_paths_kept:
  assumes "fs p \<noteq> None"
  shows "(\<forall>fs1. mkdir_parents fs (path_join ''ROMs'' system_name) = Inr fs1 \<longrightarrow>
            p \<notin> snd ` set (download_tasks fs1 system_name original_filename artwork_urls) \<and>
            (\<forall>order. set order \<subseteq> set (download_tasks fs1 system_name original_filename artwork_urls)
               \<longrightarrow> run_tasks net fs1 order p = fs p)) \<and>
         (\<forall>fs'. download_artwork_parallel net fs system_name original_filename game_title
                  artwork_urls = Inr fs' \<longrightarrow> fs' p = fs p)"
proof -
  let ?tasks = "\<lambda>fs1. download_tasks fs1 system_name original_filename artwork_urls"
  have a: "p \<notin> snd ` set (?tasks fs1) \<and>
           (\<forall>order. set order \<subseteq> set (?tasks fs1) \<longrightarrow> run_tasks net fs1 order p = fs p)"
    if m: "mkdir_parents fs (path_join ''ROMs'' system_name) = Inr fs1" for fs1
  proof -
    from m assms have e: "fs1 p = fs p" by (rule mkdir_parents_keeps)
    with assms have \<open>fs1 p \<noteq> None\<close> by simp
    have n: "p \<notin> snd ` set (?tasks fs1)"
    proof
      assume "p \<in> snd ` set (?tasks fs1)"
      then have "fs1 p = None" by (rule download_tasks_fresh)
      with \<open>fs1 p \<noteq> None\<close> show False ..
    qed
    have "run_tasks net fs1 order p = fs p" if "set order \<subseteq> set (?tasks fs1)" for order
    proof -
      from that n have "p \<notin> snd ` set order" by blast
      then have "run_tasks net fs1 order p = fs1 p" by (rule run_tasks_other_paths)
      with e show ?thesis by simp
    qed
    with n show ?thesis by blast
  qed
  have b: "fs' p = fs p"
    if d: "download_artwork_parallel net fs system_name original_filename game_title
             artwork_urls = Inr fs'" for fs'
  proof (cases "mkdir_parents fs (path_join ''ROMs'' system_name)")
    case (Inl e)
    with d show ?thesis by (simp add: download_artwork_parallel_def)
  next
    case (Inr fs1)
    from Inr assms have e: "fs1 p = fs p" by (rule mkdir_parents_keeps)
    from a [OF Inr] have r: "run_tasks net fs1 (?tasks fs1) p = fs p" by blast
    show ?thesis
    proof (cases "?tasks fs1 = []")
      case True
      with d Inr have "fs' = fs1" by (simp add: download_artwork_parallel_def)
      with e show ?thesis by simp
    next
      case False
      with d Inr have "fs' = run_tasks net fs1 (?tasks fs1)"
        by (simp add: download_artwork_parallel_def Let_def)
      with r show ?thesis by simp
    qed
  qed
  from a b show ?thesis by blast
qed

theorem existing_paths_kept_witness:
  "(Map.empty(''ROMs/NES/x-cover.jpg'' \<mapsto> File ''old'')) ''ROMs/NES/x-cover.jpg'' \<noteq> None \<and>
   (\<exists>fs'. download_artwork_parallel (\<lambda>url. Some ''new'')
            (Map.empty(''ROMs/NES/x-cover.jpg'' \<mapsto> File ''old'')) ''NES'' ''x.zip'' ''X''
            [(Some ''a.jpg'', Some ''boxart''), (Some ''b.jpg'', Some ''screenshot'')] = Inr fs' \<and>
          fs' ''ROMs/NES/x-cover.jpg'' = Some (File ''old'') \<and>
          fs' ''ROMs/NES/x-screenshot.jpg'' = Some (File ''new''))"
proof -
  let ?fs = "Map.empty(''ROMs/NES/x-cover.jpg'' \<mapsto> File ''old'')"
  let ?fs1 = "?fs(''ROMs/NES'' \<mapsto> Dir)"
  let ?rows = "[(Some ''a.jpg'', Some ''boxart''), (Some ''b.jpg'', Some ''screenshot'')]"
  let ?t = "(GAMESDB_CDN @ ''images/original/'' @ format_value (Some ''b.jpg''),
             ''ROMs/NES/x-screenshot.jpg'')"
  have h: "?fs ''ROMs/NES/x-cover.jpg'' \<noteq> None" by simp
  have base: "path_join ''ROMs'' ''NES'' = ''ROMs/NES''" by code_simp
  have o1: "output_path ''NES'' ''x.zip'' (Some ''boxart'') = ''ROMs/NES/x-cover.jpg''"
    by code_simp
  have o2: "output_path ''NES'' ''x.zip'' (Some ''screenshot'') = ''ROMs/NES/x-screenshot.jpg''"
    by code_simp
  have m: "mkdir_parents ?fs ''ROMs/NES'' = Inr ?fs1"
    by (simp add: mkdir_parents_def)
  have t: "download_tasks ?fs1 ''NES'' ''x.zip'' ?rows = [?t]"
    by (simp add: Let_def o1 o2 path_exists_def)
  have r: "download_artwork_parallel (\<lambda>url. Some ''new'') ?fs ''NES'' ''x.zip'' ''X'' ?rows
           = Inr (?fs1(''ROMs/NES/x-screenshot.jpg'' \<mapsto> File ''new''))"
    by (simp add: download_artwork_parallel_def base m t download_file_def
          del: download_tasks.simps)
  from existing_paths_kept [where fs = ?fs and p = "''ROMs/NES/x-cover.jpg''", OF h] r
  have "(?fs1(''ROMs/NES/x-screenshot.jpg'' \<mapsto> File ''new'')) ''ROMs/NES/x-cover.jpg''
        = ?fs ''ROMs/NES/x-cover.jpg''"
    by blast
  then have "(?fs1(''ROMs/NES/x-screenshot.jpg'' \<mapsto> File ''new'')) ''ROMs/NES/x-cover.jpg''
        = Some (File ''old'')"
    by simp
  moreover have "(?fs1(''ROMs/NES/x-screenshot.jpg'' \<mapsto> File ''new'')) ''ROMs/NES/x-screenshot.jpg''
        = Some (File ''new'')"
    by simp
  ultimately show ?thesis using h r by blast
qed

section \<open>Properties of the import\<close>

subsection \<open>Tables with a two-column key\<close>

lemma safe_insert_many_append:
  "safe_insert_many (xs @ ys) t = safe_insert_many ys (safe_insert_many xs t)"
  by (induction xs arbitrary: t) auto

lemma set_insert_or_ignore: "set t \<subseteq> set (insert_or_ignore r t)"
  by (auto simp: insert_or_ignore_def)

lemma set_safe_insert_many: "set t \<subseteq> set (safe_insert_many rows t)"
proof (induction rows arbitrary: t)
  case Nil
  then show ?case by simp
next
  case (Cons r rows)
  have "set t \<subseteq> set (insert_or_ignore r t)" by (rule set_insert_or_ignore)
  also have "\<dots> \<subseteq> set (safe_insert_many rows (insert_or_ignore r t))" by (rule Cons.IH)
  finally show ?case by simp
qed

lemma insert_or_ignore_present:
  assumes "fst r \<noteq> None" and "snd r \<noteq> None"
  shows "r \<in> set (insert_or_ignore r t)"
proof (cases "list_ex (pk_conflict r) t")
  case True
  then obtain old where "old \<in> set t" "pk_conflict r old"
    by (auto simp: list_ex_iff)
  then have "old \<in> set t" "r = old"
    by (simp_all add: pk_conflict_def prod_eq_iff)
  with True show ?thesis by (simp add: insert_or_ignore_def)
next
  case False
  then show ?thesis by (simp add: insert_or_ignore_def)
qed

lemma insert_or_ignore_known:
  "fst r \<noteq> None \<Longrightarrow> snd r \<noteq> None \<Longrightarrow> r \<in> set t \<Longrightarrow> insert_or_ignore r t = t"
  by (auto simp: insert_or_ignore_def list_ex_iff pk_conflict_def)

lemma safe_insert_many_known:
  "\<forall>r\<in>set rows. fst r \<noteq> None \<and> snd r \<noteq> None \<and> r \<in> set t \<Longrightarrow> safe_insert_many rows t = t"
  by (induction rows) (auto simp: insert_or_ignore_known)

lemma safe_insert_many_present:
  "\<forall>r\<in>set rows. fst r \<noteq> None \<and> snd r \<noteq> None \<Longrightarrow> set rows \<subseteq> set (safe_insert_many rows t)"
proof (induction rows arbitrary: t)
  case Nil
  then show ?case by simp
next
  case (Cons r rows)
  from Cons.prems have "r \<in> set (insert_or_ignore r t)"
    by (simp add: insert_or_ignore_present)
  then have "r \<in> set (safe_insert_many rows (insert_or_ignore r t))"
    using set_safe_insert_many by blast
  moreover from Cons.prems have "set rows \<subseteq> set (safe_insert_many rows (insert_or_ignore r t))"
    by (intro Cons.IH) simp
  ultimately show ?case by simp
qed

lemma safe_insert_many_twice:
  assumes "\<forall>r\<in>set rows. fst r \<noteq> None \<and> snd r \<noteq> None"
  shows "safe_insert_many rows (safe_insert_many rows t) = safe_insert_many rows t"
proof -
  from assms have "set rows \<subseteq> set (safe_insert_many rows t)"
    by (rule safe_insert_many_present)
  with assms have "\<forall>r\<in>set rows. fst r \<noteq> None \<and> snd r \<noteq> None \<and> r \<in> set (safe_insert_many rows t)"
    by blast
  then show ?thesis by (rule safe_insert_many_known)
qed

lemma import_game_tables:
  "game_developers (import_game g db) = safe_insert_many (developer_rows g) (game_developers db)"
  "game_genres (import_game g db) = safe_insert_many (genre_rows g) (game_genres db)"
  "game_publishers (import_game g db) = safe_insert_many (publisher_rows g) (game_publishers db)"
  "game_alternates (import_game g db) = safe_insert_many (alternate_rows g) (game_alternates db)"
  "game_artwork (import_game g db) = game_artwork db"
  by (simp_all add: import_game_def developer_rows_def genre_rows_def publisher_rows_def
        alternate_rows_def)

lemma import_games_tables:
  "game_developers (import_games gs db)
     = safe_insert_many (concat (map developer_rows gs)) (game_developers db) \<and>
   game_genres (import_games gs db)
     = safe_insert_many (concat (map genre_rows gs)) (game_genres db) \<and>
   game_publishers (import_games gs db)
     = safe_insert_many (concat (map publisher_rows gs)) (game_publishers db) \<and>
   game_alternates (import_games gs db)
     = safe_insert_many (concat (map alternate_rows gs)) (game_alternates db) \<and>
   game_artwork (import_games gs db) = game_artwork db"
proof (induction gs arbitrary: db)
  case Nil
  then show ?case by simp
next
  case (Cons g gs)
  from Cons.IH [of "import_game g db"] show ?case
    by (simp add: import_game_tables safe_insert_many_append)
qed

lemma keyed_rows_not_null:
  assumes "None \<notin> set xs"
  shows "\<forall>r\<in>set (map (\<lambda>x. (Some i, x)) xs). fst r \<noteq> None \<and> snd r \<noteq> None"
proof
  fix r
  assume "r \<in> set (map (\<lambda>x. (Some i, x)) xs)"
  then obtain x where "x \<in> set xs" "r = (Some i, x)" by auto
  with assms show "fst r \<noteq> None \<and> snd r \<noteq> None"
    by (cases x) auto
qed

lemma import_data_tables:
  "game_developers (import_data db data)
     = safe_insert_many (concat (map developer_rows (ij_games data))) (game_developers db) \<and>
   game_genres (import_data db data)
     = safe_insert_many (concat (map genre_rows (ij_games data))) (game_genres db) \<and>
   game_publishers (import_data db data)
     = safe_insert_many (concat (map publisher_rows (ij_games data))) (game_publishers db) \<and>
   game_alternates (import_data db data)
     = safe_insert_many (concat (map alternate_rows (ij_games data))) (game_alternates db)"
  using import_games_tables [of "ij_games data" db]
  by (cases "ij_boxart data") (simp_all add: import_data_def Let_def)

text \<open>
  The four tables with a two-column primary key hold the same rows after a second import
  of the same source as after the first, when no list of ids holds a \<open>null\<close>.
\<close>

lemma keyed_join_tables_idempotent:
  assumes "\<forall>g\<in>set (ij_games data). no_null_ids g"
  shows "game_developers (import_data (import_data db data) data) = game_developers (import_data db data) \<and>
         game_genres (import_data (import_data db data) data) = game_genres (import_data db data) \<and>
         game_publishers (import_data (import_data db data) data) = game_publishers (import_data db data) \<and>
         game_alternates (import_data (import_data db data) data) = game_alternates (import_data db data)"
proof -
  have d: "\<forall>r\<in>set (concat (map developer_rows (ij_games data))). fst r \<noteq> None \<and> snd r \<noteq> None"
    using assms keyed_rows_not_null by (fastforce simp: developer_rows_def no_null_ids_def)
  have g: "\<forall>r\<in>set (concat (map genre_rows (ij_games data))). fst r \<noteq> None \<and> snd r \<noteq> None"
    using assms keyed_rows_not_null by (fastforce simp: genre_rows_def no_null_ids_def)
  have p: "\<forall>r\<in>set (concat (map publisher_rows (ij_games data))). fst r \<noteq> None \<and> snd r \<noteq> None"
    using assms keyed_rows_not_null by (fastforce simp: publisher_rows_def no_null_ids_def)
  have a: "\<forall>r\<in>set (concat (map alternate_rows (ij_games data))). fst r \<noteq> None \<and> snd r \<noteq> None"
    by (auto simp: alternate_rows_def)
  show ?thesis
    by (simp only: import_data_tables safe_insert_many_twice [OF d] safe_insert_many_twice [OF g]
          safe_insert_many_twice [OF p] safe_insert_many_twice [OF a])
qed

subsection \<open>The artwork table\<close>

text \<open>
  Claim C8. A second import of the same source must leave every join table, the artwork
  table included, as the first import left it. The table \<open>game_artwork\<close> does not stay:
  its rows are inserted without their key, so the second import of a source with one
  artwork entry adds a second copy of the row under a new id, while the table
  \<open>game_developers\<close> is the same after both imports.
\<close>

theorem import_twice_duplicates_artwork:
  "game_artwork (import_data empty_database sample_source)
     = [\<lparr>art_id = 1, art_game_id = Some 1, art_type = Some ''boxart'', art_side = Some ''front'',
         art_filename = Some ''boxart/front/1-1.jpg'', art_resolution = None\<rparr>] \<and>
   game_artwork (import_data (import_data empty_database sample_source) sample_source)
     = [\<lparr>art_id = 1, art_game_id = Some 1, art_type = Some ''boxart'', art_side = Some ''front'',
         art_filename = Some ''boxart/front/1-1.jpg'', art_resolution = None\<rparr>,
        \<lparr>art_id = 2, art_game_id = Some 1, art_type = Some ''boxart'', art_side = Some ''front'',
         art_filename = Some ''boxart/front/1-1.jpg'', art_resolution = None\<rparr>] \<and>
   game_developers (import_data (import_data empty_database sample_source) sample_source)
     = [(Some 1, Some 10)]"
  by code_simp

end
